theory Spec2Isabelle
  imports Main "HOL-Library.Extended_Nat" "HOL-Library.Multiset" "HOL-Library.AList"
begin

section \<open>Responses and promise settlements\<close>

text \<open>
  The interface \<open>SerialResponse\<close> of the server. A promise of the server is settled by a
  call of its \<open>resolve\<close> or of its \<open>reject\<close> function; both take a \<open>SerialResponse\<close>.
\<close>

record SerialResponse =
  success :: bool
  message :: string

datatype settlement = Resolve SerialResponse | Reject SerialResponse

section \<open>The device controller\<close>

text \<open>
  What the controller reads and sets of a \<open>SerialPort\<close> object: the \<open>autoOpen\<close> option it
  was made with, the \<open>isOpen\<close> getter (false as soon as \<open>close\<close> has been called), and
  whether the handlers of \<open>setupPortListeners\<close> are attached to it.
\<close>

record SerialPort =
  autoOpen :: bool
  isOpen :: bool
  listening :: bool

text \<open>
  An entry of \<open>commandQueue\<close>. The pair of functions \<open>resolve\<close>, \<open>reject\<close> it carries is
  the promise that \<open>sendCommand\<close> returned; promises are numbered in the order of creation.
\<close>

record PendingCommand =
  command :: string
  promise :: nat

text \<open>
  The fields of class \<open>DeviceController\<close>, followed by the part of the event loop and of the
  transport that its methods act on: the timeouts and intervals that are scheduled and not
  yet fired or cleared (\<open>timeouts\<close> with handle and delay, \<open>intervals\<close>), the handle the next
  \<open>setTimeout\<close> or \<open>setInterval\<close> returns, the number of the next promise, the promises of
  \<open>connect\<close> whose \<open>port.open\<close> callback is outstanding (\<open>connecting\<close>), the promises whose
  \<open>port.write\<close> callback is outstanding with the command written (\<open>writing\<close>), every
  payload given to \<open>port.write\<close> in call order (\<open>written\<close>), every call of a \<open>resolve\<close> or
  \<open>reject\<close> function in call order (\<open>settled\<close>), and every delay given to \<open>setTimeout\<close> in
  call order (\<open>delays\<close>).

  A timer handle stays in \<open>reconnectTimer\<close> until the code assigns \<open>null\<close>: the timeout
  firing does not clear the field.
\<close>

record DeviceController =
  port :: "SerialPort option"
  isConnected :: bool
  reconnectTimer :: "nat option"
  reconnectAttempts :: nat
  commandQueue :: "PendingCommand list"
  deviceCheckInterval :: "nat option"
  timeouts :: "(nat \<times> nat) list"
  intervals :: "nat list"
  nextHandle :: nat
  nextPromise :: nat
  connecting :: "nat list"
  writing :: "(nat \<times> string) list"
  written :: "string list"
  settled :: "(nat \<times> settlement) list"
  delays :: "nat list"

text \<open>\<open>MAX_RECONNECT_ATTEMPTS = Infinity\<close>, and the two delays in milliseconds.\<close>

definition MAX_RECONNECT_ATTEMPTS :: enat where
  "MAX_RECONNECT_ATTEMPTS = \<infinity>"

definition INITIAL_RECONNECT_DELAY :: nat where
  "INITIAL_RECONNECT_DELAY = 1000"

definition MAX_RECONNECT_DELAY :: nat where
  "MAX_RECONNECT_DELAY = 30000"

text \<open>A call \<open>resolve(v)\<close> or \<open>reject(v)\<close> of promise \<open>p\<close>.\<close>

definition settle :: "nat \<Rightarrow> settlement \<Rightarrow> DeviceController \<Rightarrow> DeviceController" where
  "settle p v s = s\<lparr>settled := settled s @ [(p, v)]\<rparr>"

text \<open>\<open>clearTimeout(h)\<close>: a timeout that has fired or was cleared is not there to remove.\<close>

definition clearTimeout :: "nat \<Rightarrow> DeviceController \<Rightarrow> DeviceController" where
  "clearTimeout h s = s\<lparr>timeouts := filter (\<lambda>(h', d). h' \<noteq> h) (timeouts s)\<rparr>"

definition clearInterval :: "nat \<Rightarrow> DeviceController \<Rightarrow> DeviceController" where
  "clearInterval h s = s\<lparr>intervals := filter (\<lambda>h'. h' \<noteq> h) (intervals s)\<rparr>"

text \<open>
  The statement \<open>if (this.reconnectTimer !== null) { clearTimeout(this.reconnectTimer);
  this.reconnectTimer = null; }\<close> of \<open>attemptReconnect\<close>, \<open>connect\<close> and \<open>cleanup\<close>.
\<close>

definition clearReconnectTimer :: "DeviceController \<Rightarrow> DeviceController" where
  "clearReconnectTimer s =
     (case reconnectTimer s of
        None \<Rightarrow> s
      | Some h \<Rightarrow> (clearTimeout h s)\<lparr>reconnectTimer := None\<rparr>)"

text \<open>
  \<open>rejectAllQueuedCommands(reason)\<close>: the loop shifts the head of the queue and rejects it
  until the queue is empty.
\<close>

function rejectAllQueuedCommands :: "string \<Rightarrow> DeviceController \<Rightarrow> DeviceController" where
  "rejectAllQueuedCommands reason s =
     (case commandQueue s of
        [] \<Rightarrow> s
      | cmd # rest \<Rightarrow>
          rejectAllQueuedCommands reason
            (settle (promise cmd)
               (Reject \<lparr>success = False,
                        message = ''Command '' @ command cmd @ '' failed: '' @ reason\<rparr>)
               (s\<lparr>commandQueue := rest\<rparr>)))"
  by pat_completeness auto
termination
  by (relation "measure (\<lambda>(reason, s). length (commandQueue s))") (auto simp: settle_def)

text \<open>
  \<open>executeCommand(command)\<close>, with the promise \<open>p\<close> its result is passed on to by
  \<open>.then(resolve).catch(reject)\<close>. The write callback runs later (event \<open>WriteCallback\<close>).
\<close>

definition executeCommand :: "string \<Rightarrow> nat \<Rightarrow> DeviceController \<Rightarrow> DeviceController" where
  "executeCommand c p s =
     (if \<not> isConnected s then
        settle p (Reject \<lparr>success = False, message = ''Device not connected''\<rparr>) s
      else
        case port s of
          None \<Rightarrow> settle p (Reject \<lparr>success = False, message = ''Port is not initialized''\<rparr>) s
        | Some prt \<Rightarrow> s\<lparr>written := written s @ [c], writing := writing s @ [(p, c)]\<rparr>)"

text \<open>The callback \<open>(err) => ...\<close> given to \<open>port.write\<close>; \<open>None\<close> is \<open>null\<close> or \<open>undefined\<close>.\<close>

definition writeCallback :: "string \<Rightarrow> nat \<Rightarrow> string option \<Rightarrow> DeviceController \<Rightarrow> DeviceController" where
  "writeCallback c p err s =
     (case err of
        Some m \<Rightarrow>
          settle p (Reject \<lparr>success = False, message = ''Failed to send command: '' @ m\<rparr>)
            (s\<lparr>isConnected := False\<rparr>)
      | None \<Rightarrow>
          settle p (Resolve \<lparr>success = True,
                             message = ''Command '' @ c @ '' sent successfully''\<rparr>) s)"

text \<open>\<open>processCommandQueue()\<close>: the loop shifts the head of the queue and executes it.\<close>

function processCommandQueue :: "DeviceController \<Rightarrow> DeviceController" where
  "processCommandQueue s =
     (case commandQueue s of
        [] \<Rightarrow> s
      | cmd # rest \<Rightarrow>
          processCommandQueue
            (executeCommand (command cmd) (promise cmd) (s\<lparr>commandQueue := rest\<rparr>)))"
  by pat_completeness auto
termination
  by (relation "measure (\<lambda>s. length (commandQueue s))")
     (auto simp: executeCommand_def settle_def split: option.splits)

text \<open>The delay \<open>Math.min(INITIAL_RECONNECT_DELAY * Math.pow(2, attempts), MAX_RECONNECT_DELAY)\<close>.\<close>

definition backoffDelay :: "nat \<Rightarrow> nat" where
  "backoffDelay attempts = min (INITIAL_RECONNECT_DELAY * 2 ^ attempts) MAX_RECONNECT_DELAY"

text \<open>\<open>this.reconnectTimer = setTimeout(callback, delay)\<close>.\<close>

definition setReconnectTimeout :: "nat \<Rightarrow> DeviceController \<Rightarrow> DeviceController" where
  "setReconnectTimeout delay s =
     s\<lparr>reconnectTimer := Some (nextHandle s),
       timeouts := timeouts s @ [(nextHandle s, delay)],
       nextHandle := Suc (nextHandle s),
       delays := delays s @ [delay]\<rparr>"

definition attemptReconnect :: "DeviceController \<Rightarrow> DeviceController" where
  "attemptReconnect s =
     (if MAX_RECONNECT_ATTEMPTS \<le> enat (reconnectAttempts (clearReconnectTimer s)) then
        rejectAllQueuedCommands ''Max reconnection attempts reached'' (clearReconnectTimer s)
      else
        setReconnectTimeout (backoffDelay (reconnectAttempts (clearReconnectTimer s)))
          (clearReconnectTimer s))"

definition startReconnection :: "DeviceController \<Rightarrow> DeviceController" where
  "startReconnection s = (if reconnectTimer s = None then attemptReconnect s else s)"

text \<open>
  \<open>setupPortListeners()\<close>: \<open>removeAllListeners\<close>, then the three handlers are attached.
\<close>

definition setupPortListeners :: "DeviceController \<Rightarrow> DeviceController" where
  "setupPortListeners s =
     (case port s of
        None \<Rightarrow> s
      | Some prt \<Rightarrow> s\<lparr>port := Some (prt\<lparr>listening := True\<rparr>)\<rparr>)"

text \<open>
  \<open>recreatePort()\<close>: the old port loses its listeners and is closed if open; the field then
  holds a new port made with \<open>autoOpen: true\<close>, which opens by itself and reports the result
  by an \<open>open\<close> or an \<open>error\<close> event.
\<close>

definition recreatePort :: "DeviceController \<Rightarrow> DeviceController" where
  "recreatePort s =
     setupPortListeners
       (s\<lparr>port := Some \<lparr>autoOpen = True, isOpen = False, listening = False\<rparr>\<rparr>)"

text \<open>The callback of the reconnection timeout.\<close>

definition reconnectTimeout :: "DeviceController \<Rightarrow> DeviceController" where
  "reconnectTimeout s =
     (recreatePort s)\<lparr>reconnectAttempts := Suc (reconnectAttempts (recreatePort s))\<rparr>"

text \<open>The handlers of the port events \<open>open\<close>, \<open>error\<close> and \<open>close\<close>.\<close>

definition onOpen :: "DeviceController \<Rightarrow> DeviceController" where
  "onOpen s = processCommandQueue (s\<lparr>isConnected := True, reconnectAttempts := 0\<rparr>)"

definition onError :: "DeviceController \<Rightarrow> DeviceController" where
  "onError s = startReconnection (s\<lparr>isConnected := False\<rparr>)"

definition onClose :: "DeviceController \<Rightarrow> DeviceController" where
  "onClose s = startReconnection (s\<lparr>isConnected := False\<rparr>)"

text \<open>
  \<open>connect()\<close>. The callback given to \<open>port.open\<close> runs later (event \<open>OpenCallback\<close>).
\<close>

definition connect :: "DeviceController \<Rightarrow> DeviceController" where
  "connect s =
     (if isConnected s then
        settle (nextPromise s) (Resolve \<lparr>success = True, message = ''Already connected''\<rparr>)
          (s\<lparr>nextPromise := Suc (nextPromise s)\<rparr>)
      else
        case port s of
          None \<Rightarrow>
            settle (nextPromise s)
              (Reject \<lparr>success = False, message = ''Port is not initialized''\<rparr>)
              (s\<lparr>nextPromise := Suc (nextPromise s)\<rparr>)
        | Some prt \<Rightarrow>
            (clearReconnectTimer (s\<lparr>reconnectAttempts := 0\<rparr>))
              \<lparr>nextPromise := Suc (nextPromise s), connecting := connecting s @ [nextPromise s]\<rparr>)"

definition openCallback :: "nat \<Rightarrow> string option \<Rightarrow> DeviceController \<Rightarrow> DeviceController" where
  "openCallback p err s =
     (case err of
        Some m \<Rightarrow>
          settle p (Reject \<lparr>success = False, message = ''Failed to open port: '' @ m\<rparr>) s
      | None \<Rightarrow>
          settle p (Resolve \<lparr>success = True, message = ''Connected successfully''\<rparr>) s)"

definition sendCommand :: "string \<Rightarrow> DeviceController \<Rightarrow> DeviceController" where
  "sendCommand c s =
     (if \<not> isConnected s then
        startReconnection
          (s\<lparr>commandQueue := commandQueue s @ [\<lparr>command = c, promise = nextPromise s\<rparr>],
             nextPromise := Suc (nextPromise s)\<rparr>)
      else
        executeCommand c (nextPromise s) (s\<lparr>nextPromise := Suc (nextPromise s)\<rparr>))"

text \<open>\<open>port.close()\<close> on the current port.\<close>

definition closePort :: "DeviceController \<Rightarrow> DeviceController" where
  "closePort s =
     (case port s of
        None \<Rightarrow> s
      | Some prt \<Rightarrow> if isOpen prt then s\<lparr>port := Some (prt\<lparr>isOpen := False\<rparr>)\<rparr> else s)"

definition clearDeviceCheckInterval :: "DeviceController \<Rightarrow> DeviceController" where
  "clearDeviceCheckInterval s =
     (case deviceCheckInterval s of
        None \<Rightarrow> s
      | Some h \<Rightarrow> (clearInterval h s)\<lparr>deviceCheckInterval := None\<rparr>)"

definition cleanup :: "DeviceController \<Rightarrow> DeviceController" where
  "cleanup s =
     closePort
       (rejectAllQueuedCommands ''Application shutting down''
          (clearReconnectTimer (clearDeviceCheckInterval s)))"

text \<open>
  The callback of the interval of \<open>startDeviceCheck\<close>; \<open>exists\<close> is what \<open>deviceExists()\<close>
  returns at that moment.
\<close>

definition deviceCheck :: "bool \<Rightarrow> DeviceController \<Rightarrow> DeviceController" where
  "deviceCheck exists s =
     (if exists \<and> \<not> isConnected s \<and> reconnectTimer s = None then startReconnection s
      else if \<not> exists \<and> isConnected s then closePort s
      else s)"

definition setDeviceCheckInterval :: "DeviceController \<Rightarrow> DeviceController" where
  "setDeviceCheckInterval s =
     s\<lparr>deviceCheckInterval := Some (nextHandle s),
       intervals := intervals s @ [nextHandle s],
       nextHandle := Suc (nextHandle s)\<rparr>"

definition startDeviceCheck :: "DeviceController \<Rightarrow> DeviceController" where
  "startDeviceCheck s =
     setDeviceCheckInterval
       (case deviceCheckInterval s of
          None \<Rightarrow> s
        | Some h \<Rightarrow> clearInterval h s)"

text \<open>
  \<open>initializePort()\<close>; \<open>exists\<close> is the result of \<open>deviceExists()\<close>, \<open>throws\<close> says whether
  \<open>new SerialPort\<close> threw.
\<close>

definition initializePort :: "bool \<Rightarrow> bool \<Rightarrow> DeviceController \<Rightarrow> DeviceController" where
  "initializePort exists throws s =
     (if exists then
        if throws then startReconnection s
        else
          connect
            (setupPortListeners
               (s\<lparr>port := Some \<lparr>autoOpen = False, isOpen = False, listening = False\<rparr>\<rparr>))
      else startReconnection s)"

text \<open>The constructor: the field initialisers, \<open>startDeviceCheck\<close>, \<open>initializePort\<close>.\<close>

definition fresh :: DeviceController where
  "fresh =
     \<lparr>port = None, isConnected = False, reconnectTimer = None, reconnectAttempts = 0,
      commandQueue = [], deviceCheckInterval = None, timeouts = [], intervals = [],
      nextHandle = 0, nextPromise = 0, connecting = [], writing = [], written = [],
      settled = [], delays = []\<rparr>"

definition newDeviceController :: "bool \<Rightarrow> bool \<Rightarrow> DeviceController" where
  "newDeviceController exists throws = initializePort exists throws (startDeviceCheck fresh)"

subsection \<open>Events\<close>

text \<open>
  What can happen to a controller: a call of a public method, a notification of the
  current port to its listeners (the port is open when it emits \<open>open\<close> and closed when it
  emits \<open>close\<close>), a callback of an outstanding \<open>port.open\<close> or \<open>port.write\<close>, the
  reconnection timeout with handle \<open>h\<close> firing (it is then no longer scheduled, and its
  callback runs), and a tick of the device check interval with handle \<open>h\<close> at a moment
  when \<open>deviceExists()\<close> returns \<open>exists\<close>. An event that cannot happen in a state (a
  notification without listeners, a callback that is not outstanding, a timer that is
  not scheduled) leaves the state as it is.
\<close>

datatype event =
    SendCommand string
  | Connect
  | Cleanup
  | PortOpen
  | PortError
  | PortClose
  | OpenCallback nat "string option"
  | WriteCallback nat "string option"
  | ReconnectTimeout nat
  | DeviceCheck nat bool

definition emit :: "(DeviceController \<Rightarrow> DeviceController) \<Rightarrow> DeviceController \<Rightarrow> DeviceController" where
  "emit handler s =
     (case port s of
        None \<Rightarrow> s
      | Some prt \<Rightarrow> if listening prt then handler s else s)"

definition setPortOpen :: "bool \<Rightarrow> DeviceController \<Rightarrow> DeviceController" where
  "setPortOpen b s =
     (case port s of
        None \<Rightarrow> s
      | Some prt \<Rightarrow> s\<lparr>port := Some (prt\<lparr>isOpen := b\<rparr>)\<rparr>)"

fun step :: "DeviceController \<Rightarrow> event \<Rightarrow> DeviceController" where
  "step s (SendCommand c) = sendCommand c s"
| "step s Connect = connect s"
| "step s Cleanup = cleanup s"
| "step s PortOpen = emit onOpen (setPortOpen True s)"
| "step s PortError = emit onError s"
| "step s PortClose = emit onClose (setPortOpen False s)"
| "step s (OpenCallback p err) =
     (if p \<in> set (connecting s) then openCallback p err (s\<lparr>connecting := remove1 p (connecting s)\<rparr>)
      else s)"
| "step s (WriteCallback p err) =
     (case map_of (writing s) p of
        None \<Rightarrow> s
      | Some c \<Rightarrow> writeCallback c p err (s\<lparr>writing := remove1 (p, c) (writing s)\<rparr>))"
| "step s (ReconnectTimeout h) =
     (if h \<in> fst ` set (timeouts s) then reconnectTimeout (clearTimeout h s) else s)"
| "step s (DeviceCheck h exists) =
     (if h \<in> set (intervals s) then deviceCheck exists s else s)"

definition run :: "DeviceController \<Rightarrow> event list \<Rightarrow> DeviceController" where
  "run s es = foldl step s es"

text \<open>The commands given to \<open>sendCommand\<close> in a sequence of events, in call order.\<close>

fun submitted :: "event list \<Rightarrow> string list" where
  "submitted [] = []"
| "submitted (SendCommand c # es) = c # submitted es"
| "submitted (e # es) = submitted es"

text \<open>The controller has a port and its handlers are attached to it.\<close>

definition attached :: "DeviceController \<Rightarrow> bool" where
  "attached s = (case port s of None \<Rightarrow> False | Some prt \<Rightarrow> listening prt)"

text \<open>
  A settlement whose \<open>success\<close> flag tells whether the promise was fulfilled or rejected.
\<close>

fun honest :: "settlement \<Rightarrow> bool" where
  "honest (Resolve r) = success r"
| "honest (Reject r) = (\<not> success r)"

text \<open>The call of \<open>cmd.reject\<close> in \<open>rejectAllQueuedCommands(reason)\<close>.\<close>

definition rejection :: "string \<Rightarrow> PendingCommand \<Rightarrow> nat \<times> settlement" where
  "rejection reason cmd =
     (promise cmd,
      Reject \<lparr>success = False, message = ''Command '' @ command cmd @ '' failed: '' @ reason\<rparr>)"

text \<open>
  Every scheduled timeout is the one whose handle is in \<open>reconnectTimer\<close>, and every
  scheduled interval is the one whose handle is in \<open>deviceCheckInterval\<close>.
\<close>

definition timersOwned :: "DeviceController \<Rightarrow> bool" where
  "timersOwned s =
     (fst ` set (timeouts s) \<subseteq> set_option (reconnectTimer s) \<and>
      set (intervals s) \<subseteq> set_option (deviceCheckInterval s))"


text \<open>A reconnection timeout is scheduled.\<close>

definition retryScheduled :: "DeviceController \<Rightarrow> bool" where
  "retryScheduled s = (timeouts s \<noteq> [])"

text \<open>
  The controller is not connected, no timeout is scheduled, and \<open>reconnectTimer\<close> still
  holds a handle: the one of a timeout that has fired.
\<close>

definition stalled :: "DeviceController \<Rightarrow> bool" where
  "stalled s = (\<not> isConnected s \<and> reconnectTimer s \<noteq> None \<and> timeouts s = [])"

section \<open>The retry helper\<close>

text \<open>
  \<open>sendCommandWithRetry(device, command, maxRetries = 3)\<close>. The device is given by how
  the promise of its \<open>i\<close>-th call \<open>sendCommand(command)\<close>, counted from 0, settles; \<open>None\<close> is
  a promise that never settles (a command that stays in the queue). The loop makes call
  number \<open>retryCount\<close>, since \<open>retryCount\<close> counts the calls that failed. The result is
  the outcome of the helper (\<open>Resolve\<close> for a returned response, \<open>Reject\<close> for a thrown
  one, \<open>None\<close> when it waits for ever), the number of calls of \<open>sendCommand\<close> it made and
  the delays of the timeouts it waited for.
\<close>

definition retryDelay :: nat where
  "retryDelay = 2000"

function retryLoop ::
  "(nat \<Rightarrow> settlement option) \<Rightarrow> int \<Rightarrow> nat \<Rightarrow> nat list \<Rightarrow> settlement option \<times> nat \<times> nat list"
where
  "retryLoop send maxRetries retryCount waits =
     (case send retryCount of
        None \<Rightarrow> (None, Suc retryCount, waits)
      | Some (Resolve r) \<Rightarrow> (Some (Resolve r), Suc retryCount, waits)
      | Some (Reject e) \<Rightarrow>
          if maxRetries \<le> int (Suc retryCount) then (Some (Reject e), Suc retryCount, waits)
          else retryLoop send maxRetries (Suc retryCount) (waits @ [retryDelay]))"
  by pat_completeness auto
termination
  by (relation "measure (\<lambda>(send, maxRetries, retryCount, waits). nat (maxRetries - int retryCount))")
     auto

definition sendCommandWithRetry ::
  "(string \<Rightarrow> nat \<Rightarrow> settlement option) \<Rightarrow> string \<Rightarrow> int \<Rightarrow> settlement option \<times> nat \<times> nat list"
where
  "sendCommandWithRetry device c maxRetries = retryLoop (device c) maxRetries 0 []"

section \<open>The blockchain listener\<close>

text \<open>
  A log as \<open>getLogs\<close> returns it, with what \<open>contract.interface.parseLog\<close> does on it: it
  throws, returns \<open>null\<close>, or returns a description with the name of the event and its
  \<open>args\<close>. The arguments are \<open>garbageCanId\<close>, \<open>collector\<close> and \<open>value\<close>; they are \<open>None\<close> for
  a description whose \<open>args\<close> cannot be destructured, where the statement
  \<open>const { garbageCanId, collector, value } = parsedLog.args\<close> throws.
\<close>

type_synonym PurchaseArgs = "nat \<times> string \<times> nat"

datatype ParsedLog = ParseThrows string | ParseNull | Parsed string "PurchaseArgs option"

record RawLog =
  blockNumber :: nat
  parseLog :: ParsedLog

text \<open>
  The methods \<open>startListening\<close> and \<open>checkForEvents\<close> are \<open>async\<close>: a call runs until its next
  \<open>await\<close> and goes on when the awaited promise settles, and other callbacks run in
  between. A call in progress is at one of these points: \<open>startListening\<close> awaits
  \<open>getBlockNumber\<close>; \<open>checkForEvents\<close> awaits \<open>getBlockNumber\<close>, or \<open>getLogs\<close> (with its
  \<open>currentBlock\<close>), or \<open>sendCommandWithRetry\<close> inside the loop (with its \<open>currentBlock\<close> and
  the logs after the current one).
\<close>

datatype activity =
    Starting
  | AwaitBlockNumber
  | AwaitLogs nat
  | AwaitDispatch nat "RawLog list"

text \<open>
  The fields \<open>lastBlockChecked\<close> and \<open>pollingInterval\<close> of class \<open>BlockchainListener\<close>,
  the calls in progress with their numbers, the intervals that are scheduled, the ranges
  \<open>(fromBlock, toBlock)\<close> given to \<open>getLogs\<close> in call order, and the logs for which
  \<open>sendCommandWithRetry(device, '4')\<close> was called, in call order.
\<close>

record BlockchainListener =
  lastBlockChecked :: nat
  pollingInterval :: "nat option"
  tasks :: "(nat \<times> activity) list"
  nextTask :: nat
  pollTimers :: "nat list"
  nextPollTimer :: nat
  requested :: "(nat \<times> nat) list"
  dispatched :: "RawLog list"

definition newBlockchainListener :: BlockchainListener where
  "newBlockchainListener =
     \<lparr>lastBlockChecked = 0, pollingInterval = None, tasks = [], nextTask = 0,
      pollTimers = [], nextPollTimer = 0, requested = [], dispatched = []\<rparr>"

text \<open>A call of \<open>checkForEvents()\<close>, up to its first \<open>await\<close>.\<close>

definition checkForEvents :: "BlockchainListener \<Rightarrow> BlockchainListener" where
  "checkForEvents s =
     s\<lparr>tasks := tasks s @ [(nextTask s, AwaitBlockNumber)], nextTask := Suc (nextTask s)\<rparr>"

text \<open>A call of \<open>startListening()\<close>, up to its first \<open>await\<close>.\<close>

definition startListening :: "BlockchainListener \<Rightarrow> BlockchainListener" where
  "startListening s =
     s\<lparr>tasks := tasks s @ [(nextTask s, Starting)], nextTask := Suc (nextTask s)\<rparr>"

text \<open>
  \<open>startListening\<close> after \<open>getBlockNumber\<close> has settled: a failure is caught and logged;
  otherwise the cursor is set, the interval is scheduled and \<open>checkForEvents\<close> is called.
\<close>

definition started :: "nat \<Rightarrow> string + nat \<Rightarrow> BlockchainListener \<Rightarrow> BlockchainListener" where
  "started i r s =
     (case r of
        Inl err \<Rightarrow> s\<lparr>tasks := AList.delete i (tasks s)\<rparr>
      | Inr n \<Rightarrow>
          checkForEvents
            (s\<lparr>lastBlockChecked := n,
               pollingInterval := Some (nextPollTimer s),
               pollTimers := pollTimers s @ [nextPollTimer s],
               nextPollTimer := Suc (nextPollTimer s),
               tasks := AList.delete i (tasks s)\<rparr>))"

text \<open>
  \<open>checkForEvents\<close> after \<open>getBlockNumber\<close> has settled: a failure is caught and logged;
  with no new block it returns; otherwise it calls \<open>getLogs\<close>.
\<close>

definition gotBlockNumber :: "nat \<Rightarrow> string + nat \<Rightarrow> BlockchainListener \<Rightarrow> BlockchainListener" where
  "gotBlockNumber i r s =
     (case r of
        Inl err \<Rightarrow> s\<lparr>tasks := AList.delete i (tasks s)\<rparr>
      | Inr currentBlock \<Rightarrow>
          if currentBlock \<le> lastBlockChecked s then s\<lparr>tasks := AList.delete i (tasks s)\<rparr>
          else
            s\<lparr>requested := requested s @ [(lastBlockChecked s + 1, currentBlock)],
              tasks := AList.update i (AwaitLogs currentBlock) (tasks s)\<rparr>)"

text \<open>
  The loop \<open>for (const log of logs)\<close> from a given log on, up to the next \<open>await\<close> or to the
  end of \<open>checkForEvents\<close>: an exception of \<open>parseLog\<close> or of the destructuring of
  \<open>parsedLog.args\<close> is caught by the outer \<open>catch\<close>, which only logs it; after the last
  log the cursor is set to \<open>currentBlock\<close>.
\<close>

fun processLogs :: "nat \<Rightarrow> nat \<Rightarrow> RawLog list \<Rightarrow> BlockchainListener \<Rightarrow> BlockchainListener" where
  "processLogs i currentBlock [] s =
     s\<lparr>lastBlockChecked := currentBlock, tasks := AList.delete i (tasks s)\<rparr>"
| "processLogs i currentBlock (entry # rest) s =
     (case parseLog entry of
        ParseThrows m \<Rightarrow> s\<lparr>tasks := AList.delete i (tasks s)\<rparr>
      | ParseNull \<Rightarrow> processLogs i currentBlock rest s
      | Parsed name args \<Rightarrow>
          if name = ''ContentsPurchased'' then
            case args of
              None \<Rightarrow> s\<lparr>tasks := AList.delete i (tasks s)\<rparr>
            | Some a \<Rightarrow>
                s\<lparr>tasks := AList.update i (AwaitDispatch currentBlock rest) (tasks s),
                  dispatched := dispatched s @ [entry]\<rparr>
          else processLogs i currentBlock rest s)"

text \<open>\<open>checkForEvents\<close> after \<open>getLogs\<close> has settled: a failure is caught and logged.\<close>

definition gotLogs ::
  "nat \<Rightarrow> nat \<Rightarrow> string + RawLog list \<Rightarrow> BlockchainListener \<Rightarrow> BlockchainListener"
where
  "gotLogs i currentBlock r s =
     (case r of
        Inl err \<Rightarrow> s\<lparr>tasks := AList.delete i (tasks s)\<rparr>
      | Inr logs \<Rightarrow> processLogs i currentBlock logs s)"

definition stopListening :: "BlockchainListener \<Rightarrow> BlockchainListener" where
  "stopListening s =
     (case pollingInterval s of
        None \<Rightarrow> s
      | Some h \<Rightarrow>
          s\<lparr>pollTimers := filter (\<lambda>h'. h' \<noteq> h) (pollTimers s), pollingInterval := None\<rparr>)"

text \<open>
  What can happen to a listener: a call of a public method, a tick of the interval with
  handle \<open>h\<close>, and the settling of the promise that the call in progress with number \<open>i\<close>
  awaits. Whether \<open>sendCommandWithRetry\<close> returned or threw, the loop goes on.
\<close>

datatype poll_event =
    StartListening
  | StopListening
  | Tick nat
  | BlockNumber nat "string + nat"
  | Logs nat "string + RawLog list"
  | Dispatched nat settlement

fun poll :: "BlockchainListener \<Rightarrow> poll_event \<Rightarrow> BlockchainListener" where
  "poll s StartListening = startListening s"
| "poll s StopListening = stopListening s"
| "poll s (Tick h) = (if h \<in> set (pollTimers s) then checkForEvents s else s)"
| "poll s (BlockNumber i r) =
     (case map_of (tasks s) i of
        Some Starting \<Rightarrow> started i r s
      | Some AwaitBlockNumber \<Rightarrow> gotBlockNumber i r s
      | _ \<Rightarrow> s)"
| "poll s (Logs i r) =
     (case map_of (tasks s) i of
        Some (AwaitLogs currentBlock) \<Rightarrow> gotLogs i currentBlock r s
      | _ \<Rightarrow> s)"
| "poll s (Dispatched i v) =
     (case map_of (tasks s) i of
        Some (AwaitDispatch currentBlock rest) \<Rightarrow> processLogs i currentBlock rest s
      | _ \<Rightarrow> s)"

definition polls :: "BlockchainListener \<Rightarrow> poll_event list \<Rightarrow> BlockchainListener" where
  "polls s es = foldl poll s es"

text \<open>The calls of \<open>checkForEvents\<close> that are in progress.\<close>

definition scansInProgress :: "BlockchainListener \<Rightarrow> (nat \<times> activity) list" where
  "scansInProgress s = filter (\<lambda>(i, a). a \<noteq> Starting) (tasks s)"





text \<open>The numbers of the calls in progress are below \<open>n\<close>.\<close>

definition bounded :: "nat \<Rightarrow> (nat \<times> activity) list \<Rightarrow> bool" where
  "bounded n ts = list_all (\<lambda>(k, a). k < n) ts"


text \<open>A device whose \<open>sendCommand\<close> always rejects, and one that accepts the second call.\<close>

definition notConnected :: SerialResponse where
  "notConnected = \<lparr>success = False, message = ''Device not connected''\<rparr>"

definition sent :: SerialResponse where
  "sent = \<lparr>success = True, message = ''Command 4 sent successfully''\<rparr>"

definition deadDevice :: "string \<Rightarrow> nat \<Rightarrow> settlement option" where
  "deadDevice c i = Some (Reject notConnected)"

definition slowDevice :: "string \<Rightarrow> nat \<Rightarrow> settlement option" where
  "slowDevice c i = (if i = 1 then Some (Resolve sent) else Some (Reject notConnected))"


section \<open>Properties of the device controller\<close>

declare processCommandQueue.simps [simp del] rejectAllQueuedCommands.simps [simp del]

text \<open>\<open>reconnectAttempts >= Infinity\<close> is false for every counter value.\<close>

lemma attemptReconnect_eq:
  "attemptReconnect s =
     setReconnectTimeout (backoffDelay (reconnectAttempts s)) (clearReconnectTimer s)"
  by (simp add: attemptReconnect_def MAX_RECONNECT_ATTEMPTS_def clearReconnectTimer_def
      clearTimeout_def split: option.splits)

lemma backoffDelay_eq: "backoffDelay k = min (1000 * 2 ^ k) 30000"
  by (simp add: backoffDelay_def INITIAL_RECONNECT_DELAY_def MAX_RECONNECT_DELAY_def)

lemmas ctl_defs = startReconnection_def attemptReconnect_eq setReconnectTimeout_def
  clearReconnectTimer_def clearTimeout_def settle_def executeCommand_def writeCallback_def
  openCallback_def connect_def sendCommand_def closePort_def deviceCheck_def
  reconnectTimeout_def recreatePort_def setupPortListeners_def onError_def onClose_def
  emit_def setPortOpen_def

lemmas new_defs = newDeviceController_def initializePort_def startDeviceCheck_def
  setDeviceCheckInterval_def fresh_def

subsection \<open>The queue is written in order\<close>

lemma processCommandQueue_connected:
  "commandQueue s = q \<Longrightarrow> isConnected s \<Longrightarrow> port s = Some prt \<Longrightarrow>
   processCommandQueue s =
     s\<lparr>commandQueue := [], written := written s @ map command q,
       writing := writing s @ map (\<lambda>cmd. (promise cmd, command cmd)) q\<rparr>"
proof (induction q arbitrary: s)
  case Nil
  then show ?case by (simp add: processCommandQueue.simps)
next
  case (Cons cmd rest)
  let ?s' = "executeCommand (command cmd) (promise cmd) (s\<lparr>commandQueue := rest\<rparr>)"
  have e: "?s' = s\<lparr>commandQueue := rest, written := written s @ [command cmd],
                  writing := writing s @ [(promise cmd, command cmd)]\<rparr>"
    using Cons.prems by (simp add: executeCommand_def)
  have "processCommandQueue s = processCommandQueue ?s'"
    using Cons.prems by (subst processCommandQueue.simps) simp
  also have "\<dots> = ?s'\<lparr>commandQueue := [], written := written ?s' @ map command rest,
       writing := writing ?s' @ map (\<lambda>cmd. (promise cmd, command cmd)) rest\<rparr>"
    by (rule Cons.IH) (use Cons.prems in \<open>simp_all add: e\<close>)
  finally show ?case by (simp add: e)
qed

text \<open>
  While the controller is not connected, an event other than the port opening or a
  cleanup writes nothing, and changes the queue only by appending the command of a
  \<open>sendCommand\<close>.
\<close>

lemma quiet_step:
  assumes "\<not> isConnected s" "attached s" "e \<noteq> PortOpen" "e \<noteq> Cleanup"
  shows "\<not> isConnected (step s e) \<and> attached (step s e) \<and> written (step s e) = written s \<and>
         map command (commandQueue (step s e)) = map command (commandQueue s) @ submitted [e]"
  using assms by (cases e) (auto simp: ctl_defs attached_def split: option.splits)

lemma quiet_run:
  assumes "\<not> isConnected s" "attached s" "PortOpen \<notin> set es" "Cleanup \<notin> set es"
  shows "\<not> isConnected (run s es) \<and> attached (run s es) \<and> written (run s es) = written s \<and>
         map command (commandQueue (run s es)) = map command (commandQueue s) @ submitted es"
  using assms
proof (induction es arbitrary: s)
  case Nil
  then show ?case by (simp add: run_def)
next
  case (Cons e es)
  have sub: "submitted (e # es) = submitted [e] @ submitted es" by (cases e) simp_all
  from Cons.prems
  have q: "\<not> isConnected (step s e) \<and> attached (step s e) \<and> written (step s e) = written s \<and>
           map command (commandQueue (step s e)) = map command (commandQueue s) @ submitted [e]"
    by (intro quiet_step) auto
  have "run s (e # es) = run (step s e) es" by (simp add: run_def)
  moreover from Cons.IH[of "step s e"] q Cons.prems
  have "\<not> isConnected (run (step s e) es) \<and> attached (run (step s e) es) \<and>
        written (run (step s e) es) = written (step s e) \<and>
        map command (commandQueue (run (step s e) es)) =
          map command (commandQueue (step s e)) @ submitted es"
    by simp
  ultimately show ?case using q sub by simp
qed

lemma open_writes_queue:
  assumes "attached s"
  shows "written (step s PortOpen) = written s @ map command (commandQueue s) \<and>
         commandQueue (step s PortOpen) = []"
proof -
  from assms obtain prt where p: "port s = Some prt" "listening prt"
    by (auto simp: attached_def split: option.splits)
  let ?s = "s\<lparr>port := Some (prt\<lparr>isOpen := True\<rparr>), isConnected := True, reconnectAttempts := 0\<rparr>"
  have "step s PortOpen = processCommandQueue ?s"
    using p by (simp add: emit_def setPortOpen_def onOpen_def)
  also have "\<dots> = ?s\<lparr>commandQueue := [], written := written ?s @ map command (commandQueue ?s),
       writing := writing ?s @ map (\<lambda>cmd. (promise cmd, command cmd)) (commandQueue ?s)\<rparr>"
    by (rule processCommandQueue_connected) simp_all
  finally show ?thesis by simp
qed

text \<open>
  Claim C1. Take a controller that is not connected and whose port has its handlers
  attached, and any sequence of events in which the port does not open and \<open>cleanup\<close> is
  not called; the \<open>sendCommand\<close> calls among them are the commands submitted while not
  connected. When the port then reports \<open>open\<close>, the payloads given to \<open>port.write\<close> are the
  commands that were already queued followed by the submitted ones, each once and in the
  order of submission, and the queue is empty.
\<close>

theorem queued_commands_written_in_order:
  assumes "\<not> isConnected s" "attached s" "PortOpen \<notin> set es" "Cleanup \<notin> set es"
  shows "written (run s (es @ [PortOpen])) =
           written s @ map command (commandQueue s) @ submitted es
         \<and> commandQueue (run s (es @ [PortOpen])) = []"
proof -
  have r: "run s (es @ [PortOpen]) = step (run s es) PortOpen" by (simp add: run_def)
  from quiet_run[OF assms] open_writes_queue[of "run s es"] show ?thesis
    unfolding r by simp
qed

theorem queued_commands_written_in_order_witness:
  "\<not> isConnected (newDeviceController True False)
   \<and> attached (newDeviceController True False)
   \<and> PortOpen \<notin> set [SendCommand ''4'', PortError, SendCommand ''1'']
   \<and> Cleanup \<notin> set [SendCommand ''4'', PortError, SendCommand ''1'']
   \<and> written (run (newDeviceController True False)
        ([SendCommand ''4'', PortError, SendCommand ''1''] @ [PortOpen])) = [''4'', ''1'']"
proof -
  have a: "\<not> isConnected (newDeviceController True False)"
    by (simp add: new_defs ctl_defs)
  have b: "attached (newDeviceController True False)"
    by (simp add: new_defs ctl_defs attached_def)
  have c: "PortOpen \<notin> set [SendCommand ''4'', PortError, SendCommand ''1'']" by simp
  have d: "Cleanup \<notin> set [SendCommand ''4'', PortError, SendCommand ''1'']" by simp
  have q: "commandQueue (newDeviceController True False) = []"
    by (simp add: new_defs ctl_defs)
  have w: "written (newDeviceController True False) = []"
    by (simp add: new_defs ctl_defs)
  from queued_commands_written_in_order[OF a b c d] a b c d q w show ?thesis by simp
qed

subsection \<open>The loops in closed form\<close>

lemma rejectAllQueuedCommands_eq:
  "commandQueue s = q \<Longrightarrow>
   rejectAllQueuedCommands reason s =
     s\<lparr>commandQueue := [], settled := settled s @ map (rejection reason) q\<rparr>"
proof (induction q arbitrary: s)
  case Nil
  then show ?case by (simp add: rejectAllQueuedCommands.simps)
next
  case (Cons cmd rest)
  let ?s' = "settle (promise cmd)
               (Reject \<lparr>success = False,
                        message = ''Command '' @ command cmd @ '' failed: '' @ reason\<rparr>)
               (s\<lparr>commandQueue := rest\<rparr>)"
  have "rejectAllQueuedCommands reason s = rejectAllQueuedCommands reason ?s'"
    using Cons.prems by (subst rejectAllQueuedCommands.simps) simp
  also have "\<dots> = ?s'\<lparr>commandQueue := [], settled := settled ?s' @ map (rejection reason) rest\<rparr>"
    by (rule Cons.IH) (simp add: settle_def)
  finally show ?case by (simp add: settle_def rejection_def)
qed

lemma cleanup_eq:
  "cleanup s =
     closePort
       ((clearReconnectTimer (clearDeviceCheckInterval s))
          \<lparr>commandQueue := [],
           settled := settled s @ map (rejection ''Application shutting down'') (commandQueue s)\<rparr>)"
  unfolding cleanup_def
  by (subst rejectAllQueuedCommands_eq[OF refl])
     (simp add: clearReconnectTimer_def clearDeviceCheckInterval_def clearTimeout_def
        clearInterval_def split: option.splits)

lemma onOpen_eq:
  "port s = Some prt \<Longrightarrow>
   onOpen s =
     s\<lparr>isConnected := True, reconnectAttempts := 0, commandQueue := [],
       written := written s @ map command (commandQueue s),
       writing := writing s @ map (\<lambda>cmd. (promise cmd, command cmd)) (commandQueue s)\<rparr>"
  unfolding onOpen_def
  by (subst processCommandQueue_connected[OF refl, where prt = prt]) simp_all

lemmas step_defs = ctl_defs cleanup_eq clearDeviceCheckInterval_def clearInterval_def

text \<open>A controller made while the device exists: \<open>connect()\<close> has been called.\<close>

lemma present_start:
  "newDeviceController True False =
     fresh\<lparr>port := Some \<lparr>autoOpen = False, isOpen = False, listening = True\<rparr>,
           deviceCheckInterval := Some 0, intervals := [0], nextHandle := 1, nextPromise := 1,
           connecting := [0]\<rparr>"
  by (simp add: new_defs ctl_defs)

lemma fst_rejection [simp]: "fst (rejection reason cmd) = promise cmd"
  by (simp add: rejection_def)

lemma run_snoc: "run s (es @ [e]) = step (run s es) e"
  by (simp add: run_def)

lemma run_Nil: "run s [] = s"
  by (simp add: run_def)

subsection \<open>Invariants of the reachable states\<close>

lemma timersOwned_step: "timersOwned s \<Longrightarrow> timersOwned (step s e)"
  by (cases e)
     (auto simp: timersOwned_def step_defs onOpen_eq split: option.splits if_splits)

lemma timersOwned_new: "timersOwned (newDeviceController ex th)"
  by (simp add: timersOwned_def new_defs ctl_defs)

lemma timersOwned_run: "timersOwned (run (newDeviceController ex th) es)"
proof (induction es rule: rev_induct)
  case Nil
  show ?case by (simp add: run_Nil timersOwned_new)
next
  case (snoc e es)
  then show ?case by (simp add: run_snoc timersOwned_step)
qed

lemma honest_step:
  "list_all (honest \<circ> snd) (settled s) \<Longrightarrow> list_all (honest \<circ> snd) (settled (step s e))"
  by (cases e)
     (auto simp: step_defs onOpen_eq rejection_def list_all_iff split: option.splits if_splits)

lemma honest_new: "list_all (honest \<circ> snd) (settled (newDeviceController ex th))"
  by (simp add: new_defs ctl_defs)




lemma nextPromise_callbacks [simp]:
  "nextPromise (openCallback p err s) = nextPromise s"
  "nextPromise (writeCallback c p err s) = nextPromise s"
  by (simp_all add: openCallback_def writeCallback_def settle_def split: option.splits)




subsection \<open>Cleanup\<close>

lemma timersOwned_cleanup:
  "timersOwned s \<Longrightarrow> timeouts (cleanup s) = [] \<and> intervals (cleanup s) = []"
  by (auto simp: timersOwned_def step_defs filter_empty_conv split: option.splits)

lemma cleanup_fields:
  "reconnectTimer (cleanup s) = None"
  "deviceCheckInterval (cleanup s) = None"
  "commandQueue (cleanup s) = []"
  "settled (cleanup s) =
     settled s @ map (rejection ''Application shutting down'') (commandQueue s)"
  by (simp_all add: step_defs split: option.splits)

lemma closePort_closed: "closePort (closePort s) = closePort s"
  by (simp add: closePort_def split: option.splits)

lemma cleanup_closed: "closePort (cleanup s) = cleanup s"
  by (simp add: cleanup_def closePort_closed)

lemma cleanup_fixed:
  assumes "deviceCheckInterval s = None" "reconnectTimer s = None" "commandQueue s = []"
    "closePort s = s"
  shows "cleanup s = s"
  using assms
  by (simp add: cleanup_def clearDeviceCheckInterval_def clearReconnectTimer_def
      rejectAllQueuedCommands.simps)

lemma cleanup_idem: "cleanup (cleanup s) = cleanup s"
  by (rule cleanup_fixed) (simp_all add: cleanup_fields cleanup_closed)

text \<open>
  What \<open>cleanup()\<close> has done when it returns, in every state \<open>s\<close> that a controller reaches
  from its constructor by any sequence of events: each queued command is rejected, in
  queue order, with \<open>success = false\<close> and the message
  \<open>Command c failed: Application shutting down\<close>, and the queue is empty;
  \<open>reconnectTimer\<close> and \<open>deviceCheckInterval\<close> are \<open>null\<close> and no timeout and no interval is
  scheduled; a second \<open>cleanup()\<close> right after changes nothing, so it settles no further
  promise.
\<close>

lemma cleanup_on_return:
  "let s = run (newDeviceController ex th) es in
     settled (cleanup s) =
       settled s @ map (rejection ''Application shutting down'') (commandQueue s)
     \<and> commandQueue (cleanup s) = []
     \<and> reconnectTimer (cleanup s) = None \<and> timeouts (cleanup s) = []
     \<and> deviceCheckInterval (cleanup s) = None \<and> intervals (cleanup s) = []
     \<and> cleanup (cleanup s) = cleanup s"
  using timersOwned_cleanup[OF timersOwned_run[of ex th es]]
  by (simp add: Let_def cleanup_fields cleanup_idem)

text \<open>A controller made while the device exists, whose port has opened.\<close>

lemma connected_start:
  "run (newDeviceController True False) [PortOpen] =
     fresh\<lparr>port := Some \<lparr>autoOpen = False, isOpen = True, listening = True\<rparr>,
           isConnected := True,
           deviceCheckInterval := Some 0, intervals := [0], nextHandle := 1, nextPromise := 1,
           connecting := [0]\<rparr>"
  by (simp add: present_start run_def fresh_def ctl_defs onOpen_eq)

text \<open>
  Claim C4, on the code. \<open>cleanup()\<close> closes an open port and leaves the handlers of
  \<open>setupPortListeners\<close> on it (\<open>recreatePort\<close> removes them before it closes the old port).
  So when the controller has an open port with its handlers attached, \<open>cleanup()\<close> sets
  \<open>reconnectTimer\<close> to \<open>null\<close> and closes the port; the port then reports \<open>close\<close>, the
  handler calls \<open>startReconnection\<close>, and a reconnection timeout is scheduled again, with
  the delay of the current counter: a timer is active after \<open>cleanup()\<close>.
\<close>

theorem close_after_cleanup_schedules_reconnection:
  assumes "port s = Some prt" "listening prt" "isOpen prt"
  shows "port (cleanup s) = Some (prt\<lparr>isOpen := False\<rparr>)
     \<and> reconnectTimer (cleanup s) = None
     \<and> retryScheduled (run s [Cleanup, PortClose])
     \<and> delays (run s [Cleanup, PortClose]) =
         delays s @ [min (1000 * 2 ^ reconnectAttempts s) 30000]"
  using assms
  by (auto simp: run_def retryScheduled_def step_defs backoffDelay_eq split: option.splits)

theorem close_after_cleanup_schedules_reconnection_witness:
  "port (run (newDeviceController True False) [PortOpen]) =
     Some \<lparr>autoOpen = False, isOpen = True, listening = True\<rparr>
   \<and> retryScheduled (run (run (newDeviceController True False) [PortOpen]) [Cleanup, PortClose])
   \<and> delays (run (run (newDeviceController True False) [PortOpen]) [Cleanup, PortClose]) =
       [1000]"
proof -
  let ?s = "run (newDeviceController True False) [PortOpen]"
  have a: "port ?s = Some \<lparr>autoOpen = False, isOpen = True, listening = True\<rparr>"
    unfolding connected_start by (simp add: fresh_def)
  have d: "delays ?s = []" "reconnectAttempts ?s = 0"
    unfolding connected_start by (simp_all add: fresh_def)
  from close_after_cleanup_schedules_reconnection[OF a] a
  show ?thesis unfolding d by simp
qed

subsection \<open>Promises\<close>








subsection \<open>The success flag\<close>

text \<open>
  Claim C10. In every state that a controller reaches from its constructor by any
  sequence of events, every call of a \<open>resolve\<close> function made so far, for a promise of
  \<open>connect\<close> or of \<open>sendCommand\<close>, passed a response with \<open>success = true\<close>, and every call of
  a \<open>reject\<close> function passed a response with \<open>success = false\<close>.
\<close>

theorem settlements_carry_their_flag:
  "list_all (honest \<circ> snd) (settled (run (newDeviceController ex th) es))"
proof (induction es rule: rev_induct)
  case Nil
  show ?case by (simp only: run_Nil honest_new)
next
  case (snoc e es)
  then show ?case by (simp only: run_snoc honest_step)
qed

text \<open>
  A controller whose queued command was written and acknowledged, and whose first
  \<open>connect()\<close> failed.
\<close>

lemma served:
  "run (newDeviceController True False)
     [SendCommand ''4'', PortOpen, WriteCallback 1 None,
      OpenCallback 0 (Some ''Port is already open'')] =
     fresh\<lparr>port := Some \<lparr>autoOpen = False, isOpen = True, listening = True\<rparr>,
           isConnected := True, reconnectTimer := Some 1,
           deviceCheckInterval := Some 0, timeouts := [(1, 1000)], intervals := [0],
           nextHandle := 2, nextPromise := 2, written := [''4''],
           settled :=
             [(1, Resolve \<lparr>success = True, message = ''Command 4 sent successfully''\<rparr>),
              (0, Reject \<lparr>success = False,
                            message = ''Failed to open port: Port is already open''\<rparr>)],
           delays := [1000]\<rparr>"
  by (simp add: present_start run_def fresh_def ctl_defs onOpen_eq backoffDelay_eq)

theorem settlements_carry_their_flag_witness:
  "settled (run (newDeviceController True False)
     [SendCommand ''4'', PortOpen, WriteCallback 1 None,
      OpenCallback 0 (Some ''Port is already open'')]) =
     [(1, Resolve \<lparr>success = True, message = ''Command 4 sent successfully''\<rparr>),
      (0, Reject \<lparr>success = False, message = ''Failed to open port: Port is already open''\<rparr>)]
   \<and> list_all (honest \<circ> snd) (settled (run (newDeviceController True False)
     [SendCommand ''4'', PortOpen, WriteCallback 1 None,
      OpenCallback 0 (Some ''Port is already open'')]))"
proof -
  have "settled (run (newDeviceController True False)
     [SendCommand ''4'', PortOpen, WriteCallback 1 None,
      OpenCallback 0 (Some ''Port is already open'')]) =
     [(1, Resolve \<lparr>success = True, message = ''Command 4 sent successfully''\<rparr>),
      (0, Reject \<lparr>success = False, message = ''Failed to open port: Port is already open''\<rparr>)]"
    unfolding served by (simp add: fresh_def)
  with settlements_carry_their_flag
    [of True False "[SendCommand ''4'', PortOpen, WriteCallback 1 None,
      OpenCallback 0 (Some ''Port is already open'')]"]
  show ?thesis by blast
qed

subsection \<open>Reconnection\<close>

text \<open>
  What \<open>attemptReconnect\<close> schedules when it runs, and what the \<open>open\<close> handler does to the
  counter.
\<close>

lemma attemptReconnect_delay:
  "delays (attemptReconnect s) = delays s @ [min (1000 * 2 ^ reconnectAttempts s) 30000]"
  by (simp add: attemptReconnect_eq setReconnectTimeout_def clearReconnectTimer_def
      clearTimeout_def backoffDelay_eq split: option.splits)

lemma open_resets_attempts: "attached s \<Longrightarrow> reconnectAttempts (step s PortOpen) = 0"
  by (auto simp: attached_def emit_def setPortOpen_def onOpen_eq split: option.splits)

text \<open>
  \<open>startReconnection\<close> runs \<open>attemptReconnect\<close> only if \<open>reconnectTimer\<close> is \<open>null\<close>, and the
  callback of the timeout leaves its handle in the field. Once a timeout has fired, only
  \<open>connect()\<close> and \<open>cleanup()\<close> assign \<open>null\<close>.
\<close>

lemma stalled_step:
  assumes "stalled s" "e \<noteq> Connect" "e \<noteq> Cleanup" "e \<noteq> PortOpen"
  shows "stalled (step s e) \<and> delays (step s e) = delays s"
  using assms by (cases e) (auto simp: stalled_def ctl_defs split: option.splits)

lemma stalled_run:
  assumes "stalled s" "Connect \<notin> set es" "Cleanup \<notin> set es" "PortOpen \<notin> set es"
  shows "stalled (run s es) \<and> delays (run s es) = delays s"
  using assms
proof (induction es rule: rev_induct)
  case Nil
  then show ?case by (simp add: run_Nil)
next
  case (snoc e es)
  then have "stalled (run s es) \<and> delays (run s es) = delays s" by simp
  moreover from snoc.prems have "e \<noteq> Connect" "e \<noteq> Cleanup" "e \<noteq> PortOpen" by auto
  ultimately show ?case using stalled_step[of "run s es" e] by (simp add: run_snoc)
qed

text \<open>A controller made while the device is absent, and the same after its first retry failed.\<close>

lemma absent_start:
  "newDeviceController False False =
     fresh\<lparr>reconnectTimer := Some 1, deviceCheckInterval := Some 0, timeouts := [(1, 1000)],
           intervals := [0], nextHandle := 2, delays := [1000]\<rparr>"
  by (simp add: new_defs ctl_defs backoffDelay_eq)

lemma absent_failed:
  "run (newDeviceController False False) [ReconnectTimeout 1, PortError] =
     fresh\<lparr>port := Some \<lparr>autoOpen = True, isOpen = False, listening = True\<rparr>,
           reconnectTimer := Some 1, reconnectAttempts := 1, deviceCheckInterval := Some 0,
           intervals := [0], nextHandle := 2, delays := [1000]\<rparr>"
  by (simp add: absent_start run_def fresh_def ctl_defs)

text \<open>
  The same happens when the first retry succeeds and the connection is lost later.
\<close>

lemma reconnected_then_lost:
  "stalled (run (newDeviceController False False) [ReconnectTimeout 1, PortOpen, PortClose])"
  by (simp add: absent_start run_def fresh_def ctl_defs onOpen_eq stalled_def)

text \<open>
  Claim C2, on the code. The device is absent when the controller is made, so the
  constructor schedules the first retry, after 1000 ms. The timeout fires, the port is
  made again and the counter becomes 1; the open fails and the port reports \<open>error\<close>.
  The handler calls \<open>startReconnection\<close>, which schedules nothing, and so does every
  later \<open>error\<close>: the only delay ever given to \<open>setTimeout\<close> is 1000, no timeout is
  scheduled, and there is no second and no third retry whose delay could be 2000 or 4000.
\<close>

theorem backoff_stops_after_first_retry:
  "delays (run (newDeviceController False False)
      [ReconnectTimeout 1, PortError, PortError, PortError]) = [1000]
   \<and> timeouts (run (newDeviceController False False)
      [ReconnectTimeout 1, PortError, PortError, PortError]) = []
   \<and> reconnectAttempts (run (newDeviceController False False)
      [ReconnectTimeout 1, PortError, PortError, PortError]) = 1"
  by (simp add: absent_start run_def fresh_def ctl_defs)

text \<open>
  Claim C3, on the code. From a stalled state, no sequence of events without a call of
  \<open>connect()\<close> or \<open>cleanup()\<close> and without the port opening (which nothing asks it to do)
  connects the controller or schedules a reconnection timeout: it has given up. A
  controller made while the device is absent is stalled as soon as its first retry has
  failed.
\<close>

theorem stalled_controller_never_retries:
  assumes "stalled s" "Connect \<notin> set es" "Cleanup \<notin> set es" "PortOpen \<notin> set es"
  shows "\<not> isConnected (run s es) \<and> \<not> retryScheduled (run s es)
         \<and> delays (run s es) = delays s"
  using stalled_run[OF assms] by (simp add: stalled_def retryScheduled_def)

theorem stalled_controller_never_retries_witness:
  "stalled (run (newDeviceController False False) [ReconnectTimeout 1, PortError])
   \<and> Connect \<notin> set [DeviceCheck 0 True, SendCommand ''4'', PortClose, PortError, DeviceCheck 0 True]
   \<and> Cleanup \<notin> set [DeviceCheck 0 True, SendCommand ''4'', PortClose, PortError, DeviceCheck 0 True]
   \<and> PortOpen \<notin> set [DeviceCheck 0 True, SendCommand ''4'', PortClose, PortError, DeviceCheck 0 True]
   \<and> \<not> retryScheduled
        (run (run (newDeviceController False False) [ReconnectTimeout 1, PortError])
           [DeviceCheck 0 True, SendCommand ''4'', PortClose, PortError, DeviceCheck 0 True])"
proof -
  have a: "stalled (run (newDeviceController False False) [ReconnectTimeout 1, PortError])"
    unfolding absent_failed by (simp add: stalled_def fresh_def)
  have b:
    "Connect \<notin> set [DeviceCheck 0 True, SendCommand ''4'', PortClose, PortError, DeviceCheck 0 True]"
    "Cleanup \<notin> set [DeviceCheck 0 True, SendCommand ''4'', PortClose, PortError, DeviceCheck 0 True]"
    "PortOpen \<notin> set [DeviceCheck 0 True, SendCommand ''4'', PortClose, PortError, DeviceCheck 0 True]"
    by simp_all
  from stalled_controller_never_retries[OF a b] a b show ?thesis by simp
qed

subsection \<open>A failed connect\<close>

text \<open>
  Claim C8 as stated fails. The device exists when the controller is made, so the
  constructor calls \<open>connect()\<close>; the open fails. The promise is rejected, but
  \<open>reconnectTimer\<close> is \<open>null\<close> and no reconnection timeout is scheduled.
\<close>

theorem failed_connect_starts_no_reconnection:
  "settled (run (newDeviceController True False) [OpenCallback 0 (Some ''Permission denied'')]) =
     [(0, Reject \<lparr>success = False, message = ''Failed to open port: Permission denied''\<rparr>)]
   \<and> reconnectTimer
        (run (newDeviceController True False) [OpenCallback 0 (Some ''Permission denied'')]) = None
   \<and> \<not> retryScheduled
        (run (newDeviceController True False) [OpenCallback 0 (Some ''Permission denied'')])"
  by (simp add: present_start run_def fresh_def openCallback_def settle_def retryScheduled_def)

text \<open>
  Claim C8, amended. Let \<open>connect()\<close> be called on a controller that is not connected and
  has a port, in a state where every scheduled timeout is the one of \<open>reconnectTimer\<close>, and
  let the open fail with message \<open>m\<close>. Then the promise is rejected with \<open>success = false\<close>
  and the message \<open>Failed to open port: m\<close>; the counter is 0, \<open>reconnectTimer\<close> is \<open>null\<close>
  and no reconnection timeout is scheduled, by the call or by the failure. The next
  device check that finds the device starts the reconnection, with a delay of 1000 ms.
\<close>

theorem failed_connect_rejects_and_waits_for_device_check:
  assumes "timersOwned s" "\<not> isConnected s" "port s = Some prt"
  shows "let s' = run s [Connect, OpenCallback (nextPromise s) (Some m)] in
     settled s' = settled s @
       [(nextPromise s, Reject \<lparr>success = False, message = ''Failed to open port: '' @ m\<rparr>)]
     \<and> reconnectAttempts s' = 0 \<and> reconnectTimer s' = None \<and> \<not> retryScheduled s'
     \<and> delays s' = delays s
     \<and> timeouts (deviceCheck True s') = [(nextHandle s, 1000)]"
  using assms
  by (auto simp: Let_def run_def timersOwned_def retryScheduled_def ctl_defs backoffDelay_eq
      filter_empty_conv split: option.splits)

theorem failed_connect_rejects_and_waits_for_device_check_witness:
  "timersOwned (run (newDeviceController False False) [ReconnectTimeout 1, PortError])
   \<and> \<not> isConnected (run (newDeviceController False False) [ReconnectTimeout 1, PortError])
   \<and> port (run (newDeviceController False False) [ReconnectTimeout 1, PortError]) =
       Some \<lparr>autoOpen = True, isOpen = False, listening = True\<rparr>
   \<and> settled (run (run (newDeviceController False False) [ReconnectTimeout 1, PortError])
        [Connect, OpenCallback 0 (Some ''Permission denied'')]) =
       [(0, Reject \<lparr>success = False, message = ''Failed to open port: Permission denied''\<rparr>)]
   \<and> \<not> retryScheduled
        (run (run (newDeviceController False False) [ReconnectTimeout 1, PortError])
           [Connect, OpenCallback 0 (Some ''Permission denied'')])"
proof -
  let ?s = "run (newDeviceController False False) [ReconnectTimeout 1, PortError]"
  have a: "timersOwned ?s" by (rule timersOwned_run)
  have b: "\<not> isConnected ?s"
    unfolding absent_failed by (simp add: fresh_def)
  have c: "port ?s = Some \<lparr>autoOpen = True, isOpen = False, listening = True\<rparr>"
    unfolding absent_failed by (simp add: fresh_def)
  have d: "nextPromise ?s = 0" "settled ?s = []"
    unfolding absent_failed by (simp_all add: fresh_def)
  from failed_connect_rejects_and_waits_for_device_check[OF a b c, of "''Permission denied''"]
    a b c
  show ?thesis unfolding Let_def d by simp
qed

section \<open>Properties of the retry helper\<close>

declare retryLoop.simps [simp del]

lemma retryLoop_success:
  assumes "\<And>i. j \<le> i \<Longrightarrow> i < k \<Longrightarrow> send i = Some (Reject (e i))"
    and "send k = Some (Resolve r)" and "j \<le> k" and "int k < m"
  shows "retryLoop send m j ws = (Some (Resolve r), Suc k, ws @ replicate (k - j) retryDelay)"
  using assms
proof (induction "k - j" arbitrary: j ws)
  case 0
  then have "j = k" by simp
  with 0 show ?case by (subst retryLoop.simps) simp
next
  case (Suc d)
  then have jk: "j < k" by simp
  with Suc.prems have sj: "send j = Some (Reject (e j))" by simp
  from jk Suc.prems have nm: "\<not> m \<le> 1 + int j" by simp
  have "retryLoop send m j ws = retryLoop send m (Suc j) (ws @ [retryDelay])"
    by (subst retryLoop.simps) (simp add: sj nm)
  also have "\<dots> =
      (Some (Resolve r), Suc k, (ws @ [retryDelay]) @ replicate (k - Suc j) retryDelay)"
    using Suc.hyps(2) Suc.prems jk by (intro Suc.hyps(1)) auto
  also have "(ws @ [retryDelay]) @ replicate (k - Suc j) retryDelay =
      ws @ replicate (k - j) retryDelay"
    using jk by (simp add: replicate_append_same Suc_diff_Suc flip: replicate_Suc)
  finally show ?case .
qed

lemma retryLoop_exhausted:
  assumes "\<And>i. j \<le> i \<Longrightarrow> i < n \<Longrightarrow> send i = Some (Reject (e i))"
    and "j < n"
  shows "retryLoop send (int n) j ws =
           (Some (Reject (e (n - 1))), n, ws @ replicate (n - 1 - j) retryDelay)"
  using assms
proof (induction "n - 1 - j" arbitrary: j ws)
  case 0
  then have j: "Suc j = n" by simp
  with 0 have "send j = Some (Reject (e j))" by simp
  with j show ?case by (subst retryLoop.simps) auto
next
  case (Suc d)
  then have jk: "Suc j < n" by simp
  with Suc.prems have sj: "send j = Some (Reject (e j))" by simp
  from jk have nm: "\<not> int n \<le> 1 + int j" by simp
  have "retryLoop send (int n) j ws = retryLoop send (int n) (Suc j) (ws @ [retryDelay])"
    by (subst retryLoop.simps) (simp add: sj nm)
  also have "\<dots> =
      (Some (Reject (e (n - 1))), n, (ws @ [retryDelay]) @ replicate (n - 1 - Suc j) retryDelay)"
    using Suc.hyps(2) Suc.prems jk by (intro Suc.hyps(1)) auto
  also have "(ws @ [retryDelay]) @ replicate (n - 1 - Suc j) retryDelay =
      ws @ replicate (n - 1 - j) retryDelay"
    using jk by (simp add: replicate_append_same Suc_diff_Suc flip: replicate_Suc)
  finally show ?case .
qed

text \<open>
  Claim C9. With \<open>maxRetries = 3\<close>: if the first three calls of \<open>sendCommand\<close> are
  rejected, the helper makes exactly three calls, waits 2000 ms twice, and throws the
  rejection of the third call. If the call number \<open>k < 3\<close> (from 0) is the first one
  fulfilled, the helper returns its response after \<open>k + 1\<close> calls and \<open>k\<close> waits of 2000 ms.
\<close>

theorem retry_three_attempts_two_waits:
  "((\<forall>i<3. device c i = Some (Reject (e i))) \<longrightarrow>
      sendCommandWithRetry device c 3 = (Some (Reject (e 2)), 3, [2000, 2000]))
   \<and> (k < 3 \<and> (\<forall>i<k. device' c i = Some (Reject (e' i))) \<and> device' c k = Some (Resolve r) \<longrightarrow>
      sendCommandWithRetry device' c 3 = (Some (Resolve r), Suc k, replicate k 2000))"
proof (intro conjI impI)
  assume a: "\<forall>i<3. device c i = Some (Reject (e i))"
  have "retryLoop (device c) (int 3) 0 [] =
          (Some (Reject (e (3 - 1))), 3, [] @ replicate (3 - 1 - 0) retryDelay)"
    by (rule retryLoop_exhausted) (use a in auto)
  then show "sendCommandWithRetry device c 3 = (Some (Reject (e 2)), 3, [2000, 2000])"
    by (simp add: sendCommandWithRetry_def retryDelay_def numeral_2_eq_2)
next
  assume b: "k < 3 \<and> (\<forall>i<k. device' c i = Some (Reject (e' i))) \<and> device' c k = Some (Resolve r)"
  have "retryLoop (device' c) 3 0 [] = (Some (Resolve r), Suc k, [] @ replicate (k - 0) retryDelay)"
    by (rule retryLoop_success[where e = e']) (use b in auto)
  then show "sendCommandWithRetry device' c 3 = (Some (Resolve r), Suc k, replicate k 2000)"
    by (simp add: sendCommandWithRetry_def retryDelay_def)
qed

theorem retry_three_attempts_two_waits_witness:
  "deadDevice ''4'' 0 = Some (Reject notConnected)
   \<and> deadDevice ''4'' 1 = Some (Reject notConnected)
   \<and> deadDevice ''4'' 2 = Some (Reject notConnected)
   \<and> sendCommandWithRetry deadDevice ''4'' 3 = (Some (Reject notConnected), 3, [2000, 2000])
   \<and> slowDevice ''4'' 0 = Some (Reject notConnected)
   \<and> slowDevice ''4'' 1 = Some (Resolve sent)
   \<and> sendCommandWithRetry slowDevice ''4'' 3 = (Some (Resolve sent), 2, [2000])"
proof -
  have a: "\<forall>i<3. deadDevice ''4'' i = Some (Reject notConnected)"
    by (simp add: deadDevice_def)
  have b: "(1::nat) < 3 \<and> (\<forall>i<1. slowDevice ''4'' i = Some (Reject notConnected))
           \<and> slowDevice ''4'' 1 = Some (Resolve sent)"
    by (simp add: slowDevice_def)
  from retry_three_attempts_two_waits[of deadDevice "''4''" "\<lambda>i. notConnected" 1 slowDevice
      "\<lambda>i. notConnected" sent] a b
  show ?thesis by (simp add: deadDevice_def slowDevice_def)
qed

section \<open>Properties of the blockchain listener\<close>

lemmas poll_defs = polls_def newBlockchainListener_def startListening_def started_def
  checkForEvents_def gotBlockNumber_def gotLogs_def stopListening_def

subsection \<open>A failed fetch\<close>

text \<open>
  Claim C5 as stated fails. The listener starts at block 100; a scan sees block 105 and
  asks for the logs of blocks 101 to 105; \<open>getLogs\<close> fails. The cursor is not 105, and
  the next scan asks for blocks 101 to 105 again.
\<close>

theorem failed_fetch_does_not_advance_cursor:
  "lastBlockChecked (polls newBlockchainListener
      [StartListening, BlockNumber 0 (Inr 100), BlockNumber 1 (Inr 105), Logs 1 (Inl ''timeout'')])
     \<noteq> 105
   \<and> requested (polls newBlockchainListener
      [StartListening, BlockNumber 0 (Inr 100), BlockNumber 1 (Inr 105), Logs 1 (Inl ''timeout''),
       Tick 0, BlockNumber 2 (Inr 105)])
     = [(101, 105), (101, 105)]"
  by (simp add: poll_defs)

lemma bounded_delete: "bounded n ts \<Longrightarrow> bounded n (AList.delete i ts)"
  by (simp add: bounded_def AList.delete_eq list_all_iff)

lemma bounded_update: "bounded n ts \<Longrightarrow> i < n \<Longrightarrow> bounded n (AList.update i b ts)"
  by (induction ts) (auto simp: bounded_def)

lemma bounded_key: "bounded n ts \<Longrightarrow> map_of ts i = Some a \<Longrightarrow> i < n"
  by (auto simp: bounded_def list_all_iff dest: map_of_SomeD)

lemma bounded_spawn: "bounded n ts \<Longrightarrow> bounded (Suc n) (ts @ [(n, a)])"
  by (auto simp: bounded_def list_all_iff)

lemma bounded_fresh: "bounded n ts \<Longrightarrow> map_of ts n = None"
  by (auto simp: bounded_def list_all_iff map_of_eq_None_iff)

lemma bounded_processLogs:
  assumes "bounded (nextTask s) (tasks s)" "i < nextTask s"
  shows "bounded (nextTask (processLogs i cb logs s)) (tasks (processLogs i cb logs s))"
  using assms
  by (induction logs)
     (auto simp: bounded_delete bounded_update split: ParsedLog.splits option.splits)

lemma bounded_poll:
  assumes "bounded (nextTask s) (tasks s)"
  shows "bounded (nextTask (poll s e)) (tasks (poll s e))"
proof (cases e)
  case StartListening
  with assms show ?thesis by (simp add: startListening_def bounded_spawn)
next
  case StopListening
  with assms show ?thesis by (simp add: stopListening_def split: option.splits)
next
  case (Tick h)
  with assms show ?thesis by (simp add: checkForEvents_def bounded_spawn)
next
  case (BlockNumber i r)
  show ?thesis
  proof (cases "map_of (tasks s) i")
    case None
    with BlockNumber assms show ?thesis by simp
  next
    case (Some a)
    with assms have "i < nextTask s" by (rule bounded_key)
    with Some BlockNumber assms show ?thesis
      by (cases r; cases a)
         (simp_all add: started_def gotBlockNumber_def checkForEvents_def bounded_spawn
            bounded_delete bounded_update)
  qed
next
  case (Logs i r)
  show ?thesis
  proof (cases "map_of (tasks s) i")
    case None
    with Logs assms show ?thesis by simp
  next
    case (Some a)
    with assms have "i < nextTask s" by (rule bounded_key)
    with Some Logs assms show ?thesis
      by (cases r; cases a) (simp_all add: gotLogs_def bounded_delete bounded_processLogs)
  qed
next
  case (Dispatched i v)
  show ?thesis
  proof (cases "map_of (tasks s) i")
    case None
    with Dispatched assms show ?thesis by simp
  next
    case (Some a)
    with assms have "i < nextTask s" by (rule bounded_key)
    with Some Dispatched assms show ?thesis
      by (cases a) (simp_all add: bounded_processLogs)
  qed
qed

lemma polls_snoc: "polls s (es @ [e]) = poll (polls s es) e"
  by (simp add: polls_def)

lemma bounded_polls:
  "bounded (nextTask (polls newBlockchainListener es)) (tasks (polls newBlockchainListener es))"
proof (induction es rule: rev_induct)
  case Nil
  show ?case by (simp add: polls_def newBlockchainListener_def bounded_def)
next
  case (snoc e es)
  then show ?case unfolding polls_snoc by (rule bounded_poll)
qed

text \<open>The scan that the next tick begins asks for the logs from the unchanged cursor on.\<close>

lemma refetch:
  assumes "bounded (nextTask r) (tasks r)" "map_of (tasks r) j = Some (AwaitLogs block)"
    "h \<in> set (pollTimers r)" "lastBlockChecked r < tip"
  shows "requested (polls r [Logs j (Inl err), Tick h, BlockNumber (nextTask r) (Inr tip)]) =
         requested r @ [(lastBlockChecked r + 1, tip)]"
proof -
  from assms(1) have "bounded (nextTask r) (AList.delete j (tasks r))" by (rule bounded_delete)
  then have f: "map_of (AList.delete j (tasks r)) (nextTask r) = None" by (rule bounded_fresh)
  from assms(2-4) f show ?thesis
    by (simp add: polls_def gotLogs_def checkForEvents_def gotBlockNumber_def map_add_def)
qed

text \<open>
  Claim C5, amended. In every state of the listener, when \<open>getLogs\<close> fails in a scan, the
  scan ends (the error is caught and logged), the cursor keeps its value, and nothing is
  requested or dispatched. In every state that the listener reaches from its
  constructor, the scan that the next tick of the poll timer begins, when it reads a
  block number above the cursor, asks for the logs from the block after the unchanged
  cursor on: the range that failed is read again.
\<close>

theorem failed_fetch_keeps_cursor:
  "(map_of (tasks s) i = Some (AwaitLogs currentBlock) \<longrightarrow>
      lastBlockChecked (poll s (Logs i (Inl err))) = lastBlockChecked s
      \<and> scansInProgress (poll s (Logs i (Inl err))) =
          filter (\<lambda>(k, a). k \<noteq> i) (scansInProgress s)
      \<and> requested (poll s (Logs i (Inl err))) = requested s
      \<and> dispatched (poll s (Logs i (Inl err))) = dispatched s)
   \<and> (map_of (tasks (polls newBlockchainListener es)) j = Some (AwaitLogs block)
      \<and> h \<in> set (pollTimers (polls newBlockchainListener es))
      \<and> lastBlockChecked (polls newBlockchainListener es) < tip \<longrightarrow>
      requested (polls (polls newBlockchainListener es)
        [Logs j (Inl err'), Tick h,
         BlockNumber (nextTask (polls newBlockchainListener es)) (Inr tip)]) =
      requested (polls newBlockchainListener es) @
        [(lastBlockChecked (polls newBlockchainListener es) + 1, tip)])"
proof (rule conjI)
  show "map_of (tasks s) i = Some (AwaitLogs currentBlock) \<longrightarrow>
      lastBlockChecked (poll s (Logs i (Inl err))) = lastBlockChecked s
      \<and> scansInProgress (poll s (Logs i (Inl err))) =
          filter (\<lambda>(k, a). k \<noteq> i) (scansInProgress s)
      \<and> requested (poll s (Logs i (Inl err))) = requested s
      \<and> dispatched (poll s (Logs i (Inl err))) = dispatched s"
    by (auto simp: gotLogs_def scansInProgress_def AList.delete_eq intro: filter_cong)
next
  let ?r = "polls newBlockchainListener es"
  show "map_of (tasks ?r) j = Some (AwaitLogs block) \<and> h \<in> set (pollTimers ?r)
      \<and> lastBlockChecked ?r < tip \<longrightarrow>
      requested (polls ?r [Logs j (Inl err'), Tick h, BlockNumber (nextTask ?r) (Inr tip)]) =
      requested ?r @ [(lastBlockChecked ?r + 1, tip)]"
  proof (rule impI)
    assume "map_of (tasks ?r) j = Some (AwaitLogs block) \<and> h \<in> set (pollTimers ?r)
      \<and> lastBlockChecked ?r < tip"
    then show "requested (polls ?r [Logs j (Inl err'), Tick h, BlockNumber (nextTask ?r) (Inr tip)]) =
      requested ?r @ [(lastBlockChecked ?r + 1, tip)]"
      by (intro refetch[OF bounded_polls]) simp_all
  qed
qed

text \<open>The listener has started at block 100, and its first scan waits for the logs of 101 to 105.\<close>

lemma one_scan_fetching:
  "polls newBlockchainListener
     [StartListening, BlockNumber 0 (Inr 100), BlockNumber 1 (Inr 105)] =
   \<lparr>lastBlockChecked = 100, pollingInterval = Some 0,
    tasks = [(1, AwaitLogs 105)], nextTask = 2, pollTimers = [0],
    nextPollTimer = 1, requested = [(101, 105)], dispatched = []\<rparr>"
  by (simp add: poll_defs)

theorem failed_fetch_keeps_cursor_witness:
  "map_of (tasks (polls newBlockchainListener
      [StartListening, BlockNumber 0 (Inr 100), BlockNumber 1 (Inr 105)])) 1
     = Some (AwaitLogs 105)
   \<and> 0 \<in> set (pollTimers (polls newBlockchainListener
      [StartListening, BlockNumber 0 (Inr 100), BlockNumber 1 (Inr 105)]))
   \<and> lastBlockChecked (polls newBlockchainListener
      [StartListening, BlockNumber 0 (Inr 100), BlockNumber 1 (Inr 105)]) < 105
   \<and> lastBlockChecked (poll (polls newBlockchainListener
      [StartListening, BlockNumber 0 (Inr 100), BlockNumber 1 (Inr 105)])
      (Logs 1 (Inl ''timeout''))) = 100
   \<and> scansInProgress (poll (polls newBlockchainListener
      [StartListening, BlockNumber 0 (Inr 100), BlockNumber 1 (Inr 105)])
      (Logs 1 (Inl ''timeout''))) = []
   \<and> requested (polls (polls newBlockchainListener
      [StartListening, BlockNumber 0 (Inr 100), BlockNumber 1 (Inr 105)])
      [Logs 1 (Inl ''timeout''), Tick 0, BlockNumber 2 (Inr 105)]) = [(101, 105), (101, 105)]"
proof -
  let ?s = "polls newBlockchainListener
      [StartListening, BlockNumber 0 (Inr 100), BlockNumber 1 (Inr 105)]"
  have a: "map_of (tasks ?s) 1 = Some (AwaitLogs 105)"
    unfolding one_scan_fetching by simp
  have b: "0 \<in> set (pollTimers ?s)"
    unfolding one_scan_fetching by simp
  have c: "lastBlockChecked ?s < 105"
    unfolding one_scan_fetching by simp
  have d: "lastBlockChecked ?s = 100" "requested ?s = [(101, 105)]" "nextTask ?s = 2"
    "scansInProgress ?s = [(1, AwaitLogs 105)]"
    unfolding one_scan_fetching by (simp_all add: scansInProgress_def)
  from failed_fetch_keeps_cursor
    [of ?s 1 105 "''timeout''"
        "[StartListening, BlockNumber 0 (Inr 100), BlockNumber 1 (Inr 105)]" 1 105 0 105
        "''timeout''"]
    a b c
  show ?thesis unfolding d by simp
qed

subsection \<open>Overlapping scans\<close>
















end
